theory Spec2Isabelle
  imports Complex_Main "HOL-Library.AList" "HOL-Library.FuncSet"
begin

section \<open>Errors and Python values\<close>

text \<open>
  The generator of \<^verbatim>\<open>synthetic/generate.py\<close> is embedded with Python integers that are
  node numbers, class labels and indices as \<open>nat\<close> (they all come from \<^verbatim>\<open>range\<close> or
  from \<^verbatim>\<open>numpy.random.choice\<close>), Python and numpy floats as \<open>real\<close> (exact
  arithmetic, except for the label distribution of a row, which is computed with the
  rounding of IEEE binary64), dictionaries as maps, and every exception the code can raise
  as a value of \<open>py_error\<close>.
\<close>

datatype py_error = KeyError | TypeError | IndexError | ZeroDivisionError | ValueError | LinAlgError

section \<open>Flattened index space: \<^verbatim>\<open>_get_node_index\<close>\<close>

text \<open>
  \<^verbatim>\<open>_get_node_index(self, idx1)\<close> (lines 305-318). \<^verbatim>\<open>int(x / 2)\<close> on a non-negative
  integer is the quotient \<open>x div 2\<close> (exact below \<open>2^53\<close>, where the float quotient is
  exact). The returned dictionary is an association list in insertion order, written with
  the dictionary update \<open>AList.update\<close>; a missing key of \<^verbatim>\<open>E_order\<close> raises
  \<^verbatim>\<open>KeyError\<close>.
\<close>

definition get_node_index ::
  "nat \<Rightarrow> nat \<Rightarrow> (nat \<rightharpoonup> nat \<times> nat) \<Rightarrow> nat \<Rightarrow> py_error + (nat \<times> nat) list" where
  "get_node_index m k E_order idx1 =
     (if idx1 < m * k then
        (let i = idx1 div 2
         in Inr (AList.update i ((idx1 - 2 * i) + 1) []))
      else
        (let e_idx = (idx1 - m * k) div 4
         in case E_order e_idx of
              None \<Rightarrow> Inl KeyError
            | Some e \<Rightarrow>
                (let rem = (idx1 - m * k) - 4 * e_idx;
                     nodes_1 = AList.update (fst e) (rem div 2 + 1) [];
                     nodes_1 = AList.update (snd e) (rem mod 2 + 1) nodes_1
                 in Inr nodes_1)))"


section \<open>Dependency graph: \<^verbatim>\<open>_generate_edges\<close> and \<^verbatim>\<open>_generate_edges_from_list\<close>\<close>

text \<open>
  The attributes the two builders set (lines 91-104 and 109-123). \<open>G\<close> is the
  \<^verbatim>\<open>networkx.Graph\<close>, kept as the list of its \<^verbatim>\<open>add_edge(i, p_i)\<close> calls; \<open>E\<close> is the
  Python list of edges \<open>(p_i, i)\<close>; \<open>parent\<close> and \<open>E_order\<close> are dictionaries.
  \<open>n_edges\<close> is set once, after the loop.
\<close>

record deps =
  G :: "(nat \<times> nat) list"
  E :: "(nat \<times> nat) list"
  parent :: "nat \<rightharpoonup> nat"
  E_order :: "nat \<rightharpoonup> nat \<times> nat"
  n_edges :: nat

definition deps_init :: deps where
  "deps_init = \<lparr>G = [], E = [], parent = Map.empty, E_order = Map.empty, n_edges = 0\<rparr>"

text \<open>
  The body shared by both loops (lines 98-102 and 116-120): append the edge, number it,
  record the parent, add the edge to the graph. The loop state is the attributes and the
  local counter \<open>idx\<close>.
\<close>

definition add_dep :: "nat \<Rightarrow> nat \<Rightarrow> deps \<times> nat \<Rightarrow> deps \<times> nat" where
  "add_dep p_i i = (\<lambda>(s, idx).
     (s\<lparr>E := E s @ [(p_i, i)],
        E_order := (E_order s)(idx \<mapsto> (p_i, i)),
        parent := (parent s)(i \<mapsto> p_i),
        G := G s @ [(i, p_i)]\<rparr>, idx + 1))"

text \<open>
  The random draws are parameters: \<open>rnd i\<close> is the value \<^verbatim>\<open>random()\<close> returns in
  iteration \<open>i\<close>, and \<open>pick i\<close> the value \<^verbatim>\<open>choice(i)\<close> returns there. Python
  evaluates \<^verbatim>\<open>random() < edge_prob and i > 0\<close> left to right, and \<^verbatim>\<open>choice(i)\<close> only
  when both hold.
\<close>

definition generate_edges :: "nat \<Rightarrow> real \<Rightarrow> (nat \<Rightarrow> real) \<Rightarrow> (nat \<Rightarrow> nat) \<Rightarrow> deps" where
  "generate_edges m edge_prob rnd pick =
     (let (s, idx) = fold (\<lambda>i st. if rnd i < edge_prob \<and> i > 0 then add_dep (pick i) i st else st)
                          [0..<m] (deps_init, 0)
      in s\<lparr>n_edges := length (E s)\<rparr>)"

definition generate_edges_from_list :: "(nat \<times> nat) list \<Rightarrow> deps" where
  "generate_edges_from_list edges_list =
     (let (s, idx) = fold (\<lambda>edge st. add_dep (fst edge) (snd edge) st) edges_list (deps_init, 0)
      in s\<lparr>n_edges := length (E s)\<rparr>)"


text \<open>The loop invariant of \<^verbatim>\<open>_generate_edges\<close> after the iterations \<open>0, ..., j - 1\<close>.\<close>

definition edges_inv :: "nat \<Rightarrow> deps \<times> nat \<Rightarrow> bool" where
  "edges_inv j = (\<lambda>(s, idx).
     idx = length (E s) \<and>
     (\<forall>e \<in> set (E s). fst e < snd e \<and> snd e < j) \<and>
     distinct (map snd (E s)) \<and>
     (\<forall>i q. parent s i = Some q \<longleftrightarrow> (q, i) \<in> set (E s)) \<and>
     (\<forall>a. E_order s a = (if a < length (E s) then Some (E s ! a) else None)) \<and>
     G s = map prod.swap (E s))"


section \<open>Parameters: \<^verbatim>\<open>_generate_params\<close>\<close>

text \<open>
  The keys of \<^verbatim>\<open>self.theta\<close> are the tuples \<^verbatim>\<open>(i, y)\<close> and \<^verbatim>\<open>((i, j), y1, y2)\<close>; the
  values are numpy vectors. \<^verbatim>\<open>theta_range\<close> and \<^verbatim>\<open>theta_edge_range\<close> are pairs.
  \<open>rnd_node i y\<close> is the vector \<^verbatim>\<open>random(self.k)\<close> returns in the iteration \<open>(i, y)\<close> of
  the first loop, \<open>rnd_edge a y1 y2\<close> the one it returns for the \<open>a\<close>-th edge of \<open>E\<close> in
  the iteration \<open>(y1, y2)\<close> of the second (lines 125-141).
\<close>

datatype theta_key = Unary nat nat | Pairwise "nat \<times> nat" nat nat

definition generate_params ::
  "nat \<Rightarrow> nat \<Rightarrow> (nat \<times> nat) list \<Rightarrow> real \<times> real \<Rightarrow> real \<times> real \<Rightarrow>
   (nat \<Rightarrow> nat \<Rightarrow> real list) \<Rightarrow> (nat \<Rightarrow> nat \<Rightarrow> nat \<Rightarrow> real list) \<Rightarrow> (theta_key \<rightharpoonup> real list)" where
  "generate_params m k es theta_range theta_edge_range rnd_node rnd_edge =
     (let theta = Map.empty;
          theta = fold (\<lambda>i. fold (\<lambda>y th.
                    (let t_min = min (fst theta_range) (snd theta_range);
                         t_max = max (fst theta_range) (snd theta_range)
                     in th(Unary i y \<mapsto> map (\<lambda>u. (t_max - t_min) * u + t_min) (rnd_node i y))))
                    [1..<k + 1]) [0..<m] theta;
          te_min = min (fst theta_edge_range) (snd theta_edge_range);
          te_max = max (fst theta_edge_range) (snd theta_edge_range);
          theta = fold (\<lambda>(a, e). fold (\<lambda>y1. fold (\<lambda>y2 th.
                    (let w_ij = map (\<lambda>u. (te_max - te_min) * u + te_min) (rnd_edge a y1 y2)
                     in th(Pairwise e y1 y2 \<mapsto> w_ij)))
                    [1..<k + 1]) [1..<k + 1]) (enumerate 0 es) theta
      in theta)"


section \<open>Default-valued tables and \<^verbatim>\<open>P_conditional\<close>\<close>









section \<open>The label distribution of a row (lines 425-427)\<close>







section \<open>Theorems\<close>

subsection \<open>The flattened index\<close>

text \<open>
  Claim C8. For every flattened index \<open>idx\<close> below \<open>m * k\<close>, \<^verbatim>\<open>_get_node_index\<close> returns the
  dictionary with the single entry \<open>idx div 2 \<mapsto> (idx - 2 * (idx div 2)) + 1\<close>, that is the
  node \<open>idx div 2\<close> with the value \<open>idx mod 2 + 1\<close>, whatever \<open>k\<close> is: the arithmetic is
  that of \<open>k = 2\<close>.
\<close>

theorem get_node_index_singleton:
  "idx < m * k \<Longrightarrow>
     get_node_index m k eo idx = Inr [(idx div 2, (idx - 2 * (idx div 2)) + 1)]
     \<and> (idx - 2 * (idx div 2)) + 1 = idx mod 2 + 1"
  by (simp add: get_node_index_def Let_def minus_mult_div_eq_mod)

theorem get_node_index_singleton_witness:
  "(5::nat) < 3 * 3 \<and> get_node_index 3 3 Map.empty 5 = Inr [(2, 2)]"
  using get_node_index_singleton [of 5 3 3 Map.empty] by simp


subsection \<open>The dependency graph\<close>

lemma edges_inv_init: "edges_inv 0 (deps_init, 0)"
  by (simp add: edges_inv_def deps_init_def)

lemma edges_inv_skip: "edges_inv j st \<Longrightarrow> edges_inv (Suc j) st"
  by (cases st) (auto simp: edges_inv_def less_Suc_eq)

lemma edges_inv_add:
  assumes "edges_inv j st" "q < j"
  shows "edges_inv (Suc j) (add_dep q j st)"
proof (cases st)
  case (Pair s idx)
  from assms(1) Pair have fresh: "\<forall>e \<in> set (E s). snd e \<noteq> j"
    by (auto simp: edges_inv_def)
  from assms Pair show ?thesis
    unfolding edges_inv_def add_dep_def using fresh
    by (auto simp: nth_append less_Suc_eq image_iff)
qed

lemma edges_inv_fold:
  assumes "\<forall>i. 0 < i \<longrightarrow> pick i < i"
  shows "edges_inv j (fold (\<lambda>i st. if rnd i < edge_prob \<and> i > 0 then add_dep (pick i) i st else st)
                          [0..<j] (deps_init, 0))"
proof (induction j)
  case 0
  show ?case by (simp add: edges_inv_init)
next
  case (Suc j)
  show ?case using Suc assms by (auto intro: edges_inv_skip edges_inv_add)
qed


text \<open>
  Claim C6. In random mode, whenever every \<^verbatim>\<open>choice(i)\<close> returns a number below \<open>i\<close> (its
  contract), the edges of \<open>E\<close> are pairwise distinct, every edge \<open>(p, i)\<close> has \<open>p < i\<close> (and
  \<open>i < m\<close>, so node 0 is never a child), no node is the child of two edges, the parent
  dictionary holds exactly the edges of \<open>E\<close> (child to parent), and \<open>E_order\<close> has exactly
  the keys \<open>0, ..., n_edges - 1\<close>, the key \<open>a\<close> holding the \<open>a\<close>-th edge appended to \<open>E\<close>.
\<close>

theorem generate_edges_forest:
  assumes "\<forall>i. 0 < i \<longrightarrow> pick i < i"
  shows "(let s = generate_edges m edge_prob rnd pick in
          distinct (E s)
          \<and> (\<forall>e \<in> set (E s). fst e < snd e \<and> snd e < m)
          \<and> distinct (map snd (E s))
          \<and> (\<forall>i q. parent s i = Some q \<longleftrightarrow> (q, i) \<in> set (E s))
          \<and> n_edges s = length (E s)
          \<and> dom (E_order s) = {0..<n_edges s}
          \<and> (\<forall>a < n_edges s. E_order s a = Some (E s ! a)))"
proof -
  obtain s idx where f: "fold (\<lambda>i st. if rnd i < edge_prob \<and> i > 0 then add_dep (pick i) i st else st)
                          [0..<m] (deps_init, 0) = (s, idx)"
    by (cases "fold (\<lambda>i st. if rnd i < edge_prob \<and> i > 0 then add_dep (pick i) i st else st)
                          [0..<m] (deps_init, 0)")
  from edges_inv_fold [OF assms, of m rnd edge_prob] f have inv: "edges_inv m (s, idx)"
    by simp
  have g: "generate_edges m edge_prob rnd pick = s\<lparr>n_edges := length (E s)\<rparr>"
    by (simp add: generate_edges_def f)
  from inv have "distinct (map snd (E s))" by (simp add: edges_inv_def)
  then have "distinct (E s)" by (rule distinct_map [THEN iffD1, THEN conjunct1])
  moreover from inv have "dom (E_order s) = {0..<length (E s)}"
    by (auto simp: edges_inv_def dom_def)
  ultimately show ?thesis using inv unfolding g Let_def
    by (simp add: edges_inv_def)
qed

theorem generate_edges_forest_witness:
  "E (generate_edges 3 (1 / 2) (\<lambda>i. 0) (\<lambda>i. i - 1)) = [(0, 1), (1, 2)]
   \<and> distinct (E (generate_edges 3 (1 / 2) (\<lambda>i. 0) (\<lambda>i. i - 1)))
   \<and> n_edges (generate_edges 3 (1 / 2) (\<lambda>i. 0) (\<lambda>i. i - 1)) = 2
   \<and> E_order (generate_edges 3 (1 / 2) (\<lambda>i. 0) (\<lambda>i. i - 1)) 1 = Some (1, 2)"
  using generate_edges_forest [of "\<lambda>i. i - 1" 3 "1 / 2" "\<lambda>i. 0"]
  by (simp add: generate_edges_def add_dep_def deps_init_def upt_rec Let_def)

subsection \<open>The parameters\<close>

lemma fold_fold_product:
  "fold (\<lambda>x. fold (f x) ys) xs = fold (\<lambda>(x, y). f x y) (List.product xs ys)"
  by (induction xs) (simp_all add: fold_map comp_def)

lemma fold_upd_dom:
  "dom (fold (\<lambda>x th. th(f x \<mapsto> g x)) xs th0) = dom th0 \<union> f ` set xs"
  by (induction xs arbitrary: th0) auto

lemma fold_upd_val:
  "fold (\<lambda>x th. th(f x \<mapsto> g x)) xs th0 key = Some v \<Longrightarrow>
     th0 key = Some v \<or> (\<exists>x \<in> set xs. f x = key \<and> g x = v)"
  by (induction xs arbitrary: th0) (fastforce split: if_splits)+

lemma scale_in_range:
  fixes a b u :: real
  assumes "0 \<le> u" "u < 1"
  shows "min a b \<le> (max a b - min a b) * u + min a b" "(max a b - min a b) * u + min a b \<le> max a b"
proof -
  have d: "0 \<le> max a b - min a b" by simp
  show "min a b \<le> (max a b - min a b) * u + min a b"
    using d assms(1) by (simp add: mult_nonneg_nonneg)
  have "(max a b - min a b) * u \<le> (max a b - min a b) * 1"
    using d assms(2) by (intro mult_left_mono) auto
  then show "(max a b - min a b) * u + min a b \<le> max a b" by simp
qed

lemma generate_params_flat:
  "generate_params m k es theta_range theta_edge_range rnd_node rnd_edge =
     fold (\<lambda>x th. th((case x of ((a, e), y1, y2) \<Rightarrow> Pairwise e y1 y2) \<mapsto>
                       (case x of ((a, e), y1, y2) \<Rightarrow>
                          map (\<lambda>u. (max (fst theta_edge_range) (snd theta_edge_range)
                                     - min (fst theta_edge_range) (snd theta_edge_range)) * u
                                    + min (fst theta_edge_range) (snd theta_edge_range)) (rnd_edge a y1 y2))))
          (List.product (enumerate 0 es) (List.product [1..<k + 1] [1..<k + 1]))
       (fold (\<lambda>x th. th((case x of (i, y) \<Rightarrow> Unary i y) \<mapsto>
                       (case x of (i, y) \<Rightarrow>
                          map (\<lambda>u. (max (fst theta_range) (snd theta_range)
                                     - min (fst theta_range) (snd theta_range)) * u
                                    + min (fst theta_range) (snd theta_range)) (rnd_node i y))))
          (List.product [0..<m] [1..<k + 1]) Map.empty)"
  unfolding generate_params_def Let_def fold_fold_product
  by (simp add: case_prod_unfold fold_fold_product)


lemma fold_upd_None:
  "key \<notin> f ` set xs \<Longrightarrow> th0 key = None \<Longrightarrow> fold (\<lambda>x th. th(f x \<mapsto> g x)) xs th0 key = None"
  by (induction xs arbitrary: th0) auto

lemma fold_upd_inv:
  assumes "fold (\<lambda>x th. th(f x \<mapsto> g x)) xs th0 key = Some v"
      and "\<forall>x \<in> set xs. f x = key \<longrightarrow> P (g x)" and "\<forall>w. th0 key = Some w \<longrightarrow> P w"
  shows "P v"
  using fold_upd_val [OF assms(1)] assms(2,3) by blast


text \<open>
  Claim C7. Whenever every \<^verbatim>\<open>random(self.k)\<close> returns \<open>k\<close> numbers of \<open>[0, 1)\<close> (its
  contract), the keys of \<open>theta\<close> after \<^verbatim>\<open>_generate_params\<close> are exactly the \<open>(i, y)\<close> with
  \<open>i < m\<close> and \<open>1 \<le> y \<le> k\<close> and the \<open>((i, j), y1, y2)\<close> with \<open>(i, j)\<close> an edge of \<open>E\<close> and
  \<open>1 \<le> y1, y2 \<le> k\<close>; the vector of a key of the first kind has length \<open>k\<close> and entries
  between the smaller and the larger end of \<^verbatim>\<open>theta_range\<close>, and the vector of a key of
  the second kind has length \<open>k\<close> and entries between the ends of \<^verbatim>\<open>theta_edge_range\<close>.
\<close>

theorem generate_params_theta:
  assumes node_draws: "\<forall>i y. length (rnd_node i y) = k \<and> (\<forall>u \<in> set (rnd_node i y). 0 \<le> u \<and> u < 1)"
      and edge_draws: "\<forall>a y1 y2. length (rnd_edge a y1 y2) = k \<and> (\<forall>u \<in> set (rnd_edge a y1 y2). 0 \<le> u \<and> u < 1)"
  shows "(let theta = generate_params m k es theta_range theta_edge_range rnd_node rnd_edge in
          dom theta = {Unary i y | i y. i < m \<and> 1 \<le> y \<and> y \<le> k}
                    \<union> {Pairwise e y1 y2 | e y1 y2. e \<in> set es \<and> 1 \<le> y1 \<and> y1 \<le> k \<and> 1 \<le> y2 \<and> y2 \<le> k}
          \<and> (\<forall>i y v. theta (Unary i y) = Some v \<longrightarrow>
                length v = k \<and> (\<forall>x \<in> set v. min (fst theta_range) (snd theta_range) \<le> x
                                          \<and> x \<le> max (fst theta_range) (snd theta_range)))
          \<and> (\<forall>e y1 y2 v. theta (Pairwise e y1 y2) = Some v \<longrightarrow>
                length v = k \<and> (\<forall>x \<in> set v. min (fst theta_edge_range) (snd theta_edge_range) \<le> x
                                          \<and> x \<le> max (fst theta_edge_range) (snd theta_edge_range))))"
proof -
  let ?theta = "generate_params m k es theta_range theta_edge_range rnd_node rnd_edge"
  have es_img: "snd ` set (enumerate 0 es) = set es"
    by (metis map_snd_enumerate set_map)
  have d: "dom ?theta = {Unary i y | i y. i < m \<and> 1 \<le> y \<and> y \<le> k}
                    \<union> {Pairwise e y1 y2 | e y1 y2. e \<in> set es \<and> 1 \<le> y1 \<and> y1 \<le> k \<and> 1 \<le> y2 \<and> y2 \<le> k}"
    (is "_ = ?A \<union> ?B")
  proof -
    have a: "(\<lambda>x. case x of (i, y) \<Rightarrow> Unary i y) ` set (List.product [0..<m] [1..<k + 1]) = ?A"
      by (auto simp: image_iff) 
    have b: "(\<lambda>x. case x of ((a, e), y1, y2) \<Rightarrow> Pairwise e y1 y2)
               ` set (List.product (enumerate 0 es) (List.product [1..<k + 1] [1..<k + 1])) = ?B"
    proof (intro set_eqI iffI)
      fix z assume "z \<in> (\<lambda>x. case x of ((a, e), y1, y2) \<Rightarrow> Pairwise e y1 y2)
               ` set (List.product (enumerate 0 es) (List.product [1..<k + 1] [1..<k + 1]))"
      then obtain a e y1 y2 where "z = Pairwise e y1 y2" "(a, e) \<in> set (enumerate 0 es)"
          "1 \<le> y1" "y1 \<le> k" "1 \<le> y2" "y2 \<le> k"
        by auto
      moreover from this have "e \<in> set es" using es_img by force
      ultimately show "z \<in> ?B" by blast
    next
      fix z assume "z \<in> ?B"
      then obtain e y1 y2 where z: "z = Pairwise e y1 y2" "e \<in> set es"
          "1 \<le> y1" "y1 \<le> k" "1 \<le> y2" "y2 \<le> k"
        by blast
      from z(2) have "e \<in> snd ` set (enumerate 0 es)" unfolding es_img .
      then obtain a where "(a, e) \<in> set (enumerate 0 es)" by (auto simp: image_iff)
      with z have "((a, e), y1, y2) \<in> set (List.product (enumerate 0 es) (List.product [1..<k + 1] [1..<k + 1]))"
        by auto
      then show "z \<in> (\<lambda>x. case x of ((a, e), y1, y2) \<Rightarrow> Pairwise e y1 y2)
               ` set (List.product (enumerate 0 es) (List.product [1..<k + 1] [1..<k + 1]))"
        unfolding z(1) by (rule rev_image_eqI) simp
    qed
    show ?thesis
      unfolding generate_params_flat fold_upd_dom a b by simp
  qed
  have u: "length v = k \<and> (\<forall>x \<in> set v. min (fst theta_range) (snd theta_range) \<le> x
                                          \<and> x \<le> max (fst theta_range) (snd theta_range))"
    if "?theta (Unary i y) = Some v" for i y v
    using that unfolding generate_params_flat
    apply (rule fold_upd_inv [where P = "\<lambda>v. length v = k \<and> (\<forall>x \<in> set v. min (fst theta_range) (snd theta_range) \<le> x
                                          \<and> x \<le> max (fst theta_range) (snd theta_range))"])
    subgoal by (auto simp: case_prod_unfold)
    subgoal
      apply (intro allI impI)
      apply (erule fold_upd_inv [where P = "\<lambda>v. length v = k \<and> (\<forall>x \<in> set v. min (fst theta_range) (snd theta_range) \<le> x
                                          \<and> x \<le> max (fst theta_range) (snd theta_range))"])
      subgoal using node_draws by (auto simp: case_prod_unfold intro: scale_in_range)
      subgoal by simp
      done
    done
  have p: "length v = k \<and> (\<forall>x \<in> set v. min (fst theta_edge_range) (snd theta_edge_range) \<le> x
                                          \<and> x \<le> max (fst theta_edge_range) (snd theta_edge_range))"
    if "?theta (Pairwise e y1 y2) = Some v" for e y1 y2 v
    using that unfolding generate_params_flat
    apply (rule fold_upd_inv [where P = "\<lambda>v. length v = k \<and> (\<forall>x \<in> set v. min (fst theta_edge_range) (snd theta_edge_range) \<le> x
                                          \<and> x \<le> max (fst theta_edge_range) (snd theta_edge_range))"])
    subgoal using edge_draws by (auto simp: case_prod_unfold intro: scale_in_range)
    subgoal by (subst fold_upd_None) auto
    done
  show ?thesis unfolding Let_def using d u p by blast
qed


theorem generate_params_theta_witness:
  "dom (generate_params 1 1 [(0, 1)] (1, 0) (0, 2) (\<lambda>i y. [1 / 2]) (\<lambda>a y1 y2. [1 / 2]))
       = {Unary 0 1, Pairwise (0, 1) 1 1}
   \<and> generate_params 1 1 [(0, 1)] (1, 0) (0, 2) (\<lambda>i y. [1 / 2]) (\<lambda>a y1 y2. [1 / 2]) (Unary 0 1)
       = Some [1 / 2]
   \<and> generate_params 1 1 [(0, 1)] (1, 0) (0, 2) (\<lambda>i y. [1 / 2]) (\<lambda>a y1 y2. [1 / 2]) (Pairwise (0, 1) 1 1)
       = Some [1]"
  using generate_params_theta [of "\<lambda>i y. [1 / 2]" 1 "\<lambda>a y1 y2. [1 / 2]" 1 "[(0, 1)]" "(1, 0)" "(0, 2)"]
  by (auto simp: generate_params_def Let_def)

subsection \<open>The label distribution\<close>















subsection \<open>Default-valued tables\<close>



end
